theory Spec2Isabelle
  imports Complex_Main "HOL-Library.Char_ord" "HOL-Library.List_Lexorder"
begin

section \<open>Values and exceptions\<close>

text \<open>
  The program works on what \<^verbatim>\<open>json.load\<close> returns: \<^verbatim>\<open>None\<close>, booleans, numbers,
  strings, lists and dictionaries with string keys. A dictionary is an association
  list in key iteration order; \<^verbatim>\<open>json.load\<close> only builds dictionaries whose keys are
  pairwise different (\<open>wf_json\<close> below). A Python \<^verbatim>\<open>str\<close> is a \<open>string\<close>, one
  \<open>char\<close> per character, the \<open>char\<close> being the code point of the character; the model
  covers the strings whose code points are below 256.
\<close>

datatype json =
    JNull
  | JBool bool
  | JInt int
  | JFloat rat
  | JStr string
  | JArr "json list"
  | JObj "(string \<times> json) list"

fun wf_json :: "json \<Rightarrow> bool" where
  "wf_json (JArr xs) = list_all wf_json xs"
| "wf_json (JObj kvs) = (distinct (map fst kvs) \<and> list_all (\<lambda>kv. wf_json (snd kv)) kvs)"
| "wf_json _ = True"

text \<open>
  The exceptions the modelled code can raise, all subclasses of \<^verbatim>\<open>Exception\<close>.
  \<open>KeyError\<close> carries the missing key, \<open>AttributeError\<close> the missing attribute,
  \<open>APIError\<close> the message of a failure of the chat-completion client.
\<close>

datatype py_error =
    KeyError string
  | TypeError
  | AttributeError string
  | APIError string

subsection \<open>Strings\<close>

text \<open>
  \<^verbatim>\<open>str.lower\<close> on one character, given by its code point: the capitals of the range
  are \<^verbatim>\<open>A\<close> to \<^verbatim>\<open>Z\<close> (65 to 90) and the accented capitals 192 to 222 without the
  multiplication sign 215; each is lowered by adding 32, every other character is
  left as it is.
\<close>

definition lower_char :: "char \<Rightarrow> char" where
  "lower_char c =
     (let n = (of_char c :: nat)
      in if (65 \<le> n \<and> n \<le> 90) \<or> (192 \<le> n \<and> n \<le> 222 \<and> n \<noteq> 215)
         then char_of (n + 32) else c)"

definition lower :: "string \<Rightarrow> string" where
  "lower s = map lower_char s"

definition newline :: char where
  "newline = CHR 0x0A"

text \<open>\<^verbatim>\<open>sep.join(parts)\<close> on a list of strings.\<close>

fun join :: "string \<Rightarrow> string list \<Rightarrow> string" where
  "join sep [] = []"
| "join sep [s] = s"
| "join sep (s # t # ts) = s @ sep @ join sep (t # ts)"

text \<open>\<^verbatim>\<open>s.replace(old, new)\<close> for one-character \<open>old\<close> and \<open>new\<close>.\<close>

definition replace_char :: "char \<Rightarrow> char \<Rightarrow> string \<Rightarrow> string" where
  "replace_char old new s = map (\<lambda>c. if c = old then new else c) s"

text \<open>\<^verbatim>\<open>str(n)\<close> for a natural number: its decimal digits.\<close>

definition digit_char :: "nat \<Rightarrow> char" where
  "digit_char d = char_of (48 + d)"

function str_nat :: "nat \<Rightarrow> string" where
  "str_nat n = (if n < 10 then [digit_char n] else str_nat (n div 10) @ [digit_char (n mod 10)])"
  by pat_completeness auto
termination
  by (relation "measure (\<lambda>n. n)") auto

declare str_nat.simps [simp del]

subsection \<open>Operations on values\<close>

text \<open>\<^verbatim>\<open>v[key]\<close> with a string key: only a dictionary accepts it.\<close>

fun subscript :: "json \<Rightarrow> string \<Rightarrow> py_error + json" where
  "subscript (JObj kvs) k = (case map_of kvs k of None \<Rightarrow> Inl (KeyError k) | Some v \<Rightarrow> Inr v)"
| "subscript _ k = Inl TypeError"

text \<open>\<^verbatim>\<open>v.get(key, default)\<close>: only a dictionary has the method.\<close>

fun dict_get :: "json \<Rightarrow> string \<Rightarrow> json \<Rightarrow> py_error + json" where
  "dict_get (JObj kvs) k d = (case map_of kvs k of None \<Rightarrow> Inr d | Some v \<Rightarrow> Inr v)"
| "dict_get _ k d = Inl (AttributeError ''get'')"

text \<open>\<^verbatim>\<open>v.lower()\<close>: only a string has the method.\<close>

fun py_lower :: "json \<Rightarrow> py_error + string" where
  "py_lower (JStr s) = Inr (lower s)"
| "py_lower _ = Inl (AttributeError ''lower'')"

text \<open>\<^verbatim>\<open>v.replace('\n', ' ')\<close>: only a string has the method.\<close>

fun py_replace :: "json \<Rightarrow> py_error + string" where
  "py_replace (JStr s) = Inr (replace_char newline (CHR '' '') s)"
| "py_replace _ = Inl (AttributeError ''replace'')"

text \<open>
  The elements a \<^verbatim>\<open>for\<close> loop over \<open>v\<close> visits: the items of a list, the keys of a
  dictionary, the characters of a string; anything else is not iterable.
\<close>

fun py_iter :: "json \<Rightarrow> py_error + json list" where
  "py_iter (JArr xs) = Inr xs"
| "py_iter (JObj kvs) = Inr (map (\<lambda>kv. JStr (fst kv)) kvs)"
| "py_iter (JStr s) = Inr (map (\<lambda>c. JStr [c]) s)"
| "py_iter _ = Inl TypeError"

text \<open>\<^verbatim>\<open>'\n'.join(values)\<close>: every item has to be a string.\<close>

fun str_items :: "json list \<Rightarrow> py_error + string list" where
  "str_items [] = Inr []"
| "str_items (JStr s # vs) = (case str_items vs of Inl e \<Rightarrow> Inl e | Inr ss \<Rightarrow> Inr (s # ss))"
| "str_items (_ # vs) = Inl TypeError"

definition py_join :: "json list \<Rightarrow> py_error + string" where
  "py_join vs = (case str_items vs of Inl e \<Rightarrow> Inl e | Inr ss \<Rightarrow> Inr (join [newline] ss))"

section \<open>The summarization capability\<close>

text \<open>
  The effects of the program are kept in a \<open>world\<close>: the messages shown with
  \<^verbatim>\<open>st.error\<close> and the requests sent to the chat-completion client, both in order.
  The client is a parameter: it answers a request with the content of the first
  choice or raises.
\<close>

record chat_request =
  model :: string
  system_content :: string
  user_content :: string
  temperature :: rat
  max_tokens :: nat

datatype ui_message = Error_processing_component py_error

record world =
  ui_errors :: "ui_message list"
  requests :: "chat_request list"

type_synonym client = "chat_request \<Rightarrow> py_error + string"

definition prompt :: "string \<Rightarrow> string" where
  "prompt text =
     ''Please provide a concise summary of the following text in steps:'' @ [newline, newline] @ text"

definition completion_request :: "string \<Rightarrow> chat_request" where
  "completion_request text =
     \<lparr> model = ''llama-3.3-70b-versatile'',
       system_content = ''You are a helpful assistant that provides concise summaries.'',
       user_content = prompt text,
       temperature = 1 / 2,
       max_tokens = 150 \<rparr>"

definition summarize_with_llm :: "client \<Rightarrow> string \<Rightarrow> world \<Rightarrow> (py_error + string) \<times> world" where
  "summarize_with_llm cl text w =
     (let req = completion_request text
      in (cl req, w\<lparr>requests := requests w @ [req]\<rparr>))"

section \<open>Aggregation\<close>

record aggregation_result =
  Component :: string
  Analysis :: string

text \<open>The inner loop of \<^verbatim>\<open>process_selected_component\<close>, over the comments of one item.\<close>

fun append_comments :: "json list \<Rightarrow> json list \<Rightarrow> py_error + json list" where
  "append_comments acc [] = Inr acc"
| "append_comments acc (comment_obj # rest) =
     (case dict_get comment_obj ''comment'' (JStr '''') of
        Inl e \<Rightarrow> Inl e
      | Inr t \<Rightarrow> append_comments (acc @ [t]) rest)"

text \<open>The outer loop, over the items, with \<open>acc\<close> the list \<^verbatim>\<open>aggregated_comments\<close>.\<close>

fun aggregate_comments :: "string \<Rightarrow> json list \<Rightarrow> json list \<Rightarrow> py_error + json list" where
  "aggregate_comments selected_component acc [] = Inr acc"
| "aggregate_comments selected_component acc (item # items) =
     (case subscript item ''Component'' of
        Inl e \<Rightarrow> Inl e
      | Inr v \<Rightarrow>
          (case py_lower v of
             Inl e \<Rightarrow> Inl e
           | Inr name \<Rightarrow>
               if name = lower selected_component then
                 (case dict_get item ''Comment'' (JArr []) of
                    Inl e \<Rightarrow> Inl e
                  | Inr cm \<Rightarrow>
                      (case py_iter cm of
                         Inl e \<Rightarrow> Inl e
                       | Inr cs \<Rightarrow>
                           (case append_comments acc cs of
                              Inl e \<Rightarrow> Inl e
                            | Inr acc' \<Rightarrow> aggregate_comments selected_component acc' items)))
               else aggregate_comments selected_component acc items))"

text \<open>The body of the \<^verbatim>\<open>try\<close> block.\<close>

definition process_body ::
  "client \<Rightarrow> json \<Rightarrow> string \<Rightarrow> string \<Rightarrow> world \<Rightarrow> (py_error + aggregation_result option) \<times> world"
where
  "process_body cl json_data selected_component additional_text w =
     (case py_iter json_data of
        Inl e \<Rightarrow> (Inl e, w)
      | Inr items \<Rightarrow>
          (case aggregate_comments selected_component [] items of
             Inl e \<Rightarrow> (Inl e, w)
           | Inr aggregated_comments \<Rightarrow>
               if aggregated_comments \<noteq> [] then
                 (case py_join aggregated_comments of
                    Inl e \<Rightarrow> (Inl e, w)
                  | Inr comments_text \<Rightarrow>
                      (let combined_text = comments_text @ [newline, newline] @ additional_text
                       in case summarize_with_llm cl combined_text w of
                            (Inl e, w') \<Rightarrow> (Inl e, w')
                          | (Inr component_analysis, w') \<Rightarrow>
                              (Inr (Some \<lparr> Component = selected_component,
                                           Analysis = component_analysis \<rparr>), w')))
               else (Inr None, w)))"

text \<open>\<^verbatim>\<open>st.error(f"Error processing component: {str(e)}")\<close>\<close>

definition st_error :: "ui_message \<Rightarrow> world \<Rightarrow> world" where
  "st_error m w = w\<lparr>ui_errors := ui_errors w @ [m]\<rparr>"

text \<open>The function: the body under its \<^verbatim>\<open>except Exception\<close> handler.\<close>

definition process_selected_component ::
  "client \<Rightarrow> json \<Rightarrow> string \<Rightarrow> string \<Rightarrow> world \<Rightarrow> (py_error + aggregation_result option) \<times> world"
where
  "process_selected_component cl json_data selected_component additional_text w =
     (case process_body cl json_data selected_component additional_text w of
        (Inl e, w') \<Rightarrow> (Inr None, st_error (Error_processing_component e) w')
      | (Inr r, w') \<Rightarrow> (Inr r, w'))"

section \<open>Field lookup\<close>

text \<open>The loop of \<^verbatim>\<open>normalize_field_name\<close> over the keys of the dictionary.\<close>

fun scan_keys :: "string \<Rightarrow> (string \<times> json) list \<Rightarrow> json" where
  "scan_keys field_name [] = JStr ''N/A''"
| "scan_keys field_name ((key, v) # kvs) =
     (if lower key = lower field_name then v else scan_keys field_name kvs)"

definition normalize_field_name :: "string \<Rightarrow> (string \<times> json) list \<Rightarrow> json" where
  "normalize_field_name field_name data =
     (case map_of data field_name of
        Some v \<Rightarrow> v
      | None \<Rightarrow> scan_keys field_name data)"

section \<open>Comment formatting\<close>

text \<open>
  The loop of \<^verbatim>\<open>format_comments\<close>: \<open>i\<close> is the counter of \<^verbatim>\<open>enumerate\<close>, \<open>acc\<close> the
  list \<^verbatim>\<open>formatted_comments\<close>.
\<close>

fun format_loop :: "nat \<Rightarrow> string list \<Rightarrow> json list \<Rightarrow> py_error + string list" where
  "format_loop i acc [] = Inr acc"
| "format_loop i acc (c # cs) =
     (case subscript c ''comment'' of
        Inl e \<Rightarrow> Inl e
      | Inr v \<Rightarrow>
          (case py_replace v of
             Inl e \<Rightarrow> Inl e
           | Inr comment_text \<Rightarrow>
               (let comment_text' =
                      (if length comment_text > 100 then take 97 comment_text @ ''...''
                       else comment_text)
                in format_loop (Suc i) (acc @ [str_nat i @ ''. '' @ comment_text']) cs)))"

definition format_comments :: "json \<Rightarrow> py_error + string" where
  "format_comments comments =
     (case py_iter comments of
        Inl e \<Rightarrow> Inl e
      | Inr cs \<Rightarrow>
          (case format_loop 1 [] cs of
             Inl e \<Rightarrow> Inl e
           | Inr formatted_comments \<Rightarrow> Inr (join [newline] formatted_comments)))"

section \<open>Component index\<close>

text \<open>The generator \<^verbatim>\<open>item['Component'].lower() for item in json_data\<close> of \<^verbatim>\<open>main\<close>.\<close>

fun component_names :: "json list \<Rightarrow> py_error + string list" where
  "component_names [] = Inr []"
| "component_names (item # items) =
     (case subscript item ''Component'' of
        Inl e \<Rightarrow> Inl e
      | Inr v \<Rightarrow>
          (case py_lower v of
             Inl e \<Rightarrow> Inl e
           | Inr name \<Rightarrow>
               (case component_names items of
                  Inl e \<Rightarrow> Inl e
                | Inr names \<Rightarrow> Inr (name # names))))"

text \<open>\<^verbatim>\<open>components = sorted(list(set(...)))\<close>\<close>

definition components :: "json \<Rightarrow> py_error + string list" where
  "components json_data =
     (case py_iter json_data of
        Inl e \<Rightarrow> Inl e
      | Inr items \<Rightarrow>
          (case component_names items of
             Inl e \<Rightarrow> Inl e
           | Inr names \<Rightarrow> Inr (sort (remdups names))))"

text \<open>The list comprehension \<^verbatim>\<open>filtered_data\<close> of \<^verbatim>\<open>main\<close>.\<close>

fun filter_items :: "string \<Rightarrow> json list \<Rightarrow> py_error + json list" where
  "filter_items selected_component [] = Inr []"
| "filter_items selected_component (item # items) =
     (case subscript item ''Component'' of
        Inl e \<Rightarrow> Inl e
      | Inr v \<Rightarrow>
          (case py_lower v of
             Inl e \<Rightarrow> Inl e
           | Inr name \<Rightarrow>
               (case filter_items selected_component items of
                  Inl e \<Rightarrow> Inl e
                | Inr rest \<Rightarrow>
                    Inr (if name = lower selected_component then item # rest else rest))))"

definition filtered_data :: "json \<Rightarrow> string \<Rightarrow> py_error + json list" where
  "filtered_data json_data selected_component =
     (case py_iter json_data of
        Inl e \<Rightarrow> Inl e
      | Inr items \<Rightarrow> filter_items selected_component items)"

section \<open>Notions used in the statements\<close>

text \<open>
  The text part of a formatted line: \<open>collapse\<close> is the replacement of line 82,
  \<open>shorten\<close> the truncation of lines 84 and 85, \<open>numbered_line\<close> the line appended at
  line 86. \<open>has_text c t\<close> says that the comment \<open>c\<close> is a dictionary holding the
  string \<open>t\<close> under \<^verbatim>\<open>comment\<close>.
\<close>

definition collapse :: "string \<Rightarrow> string" where
  "collapse t = replace_char newline (CHR '' '') t"

definition shorten :: "string \<Rightarrow> string" where
  "shorten t = (if length t > 100 then take 97 t @ ''...'' else t)"

definition numbered_line :: "nat \<Rightarrow> string \<Rightarrow> string" where
  "numbered_line i t = str_nat i @ ''. '' @ shorten (collapse t)"

definition has_text :: "json \<Rightarrow> string \<Rightarrow> bool" where
  "has_text c t = (subscript c ''comment'' = Inr (JStr t))"

text \<open>
  \<open>component_lower item\<close> is the value of \<^verbatim>\<open>item['Component'].lower()\<close>, the expression
  the three loops over the records evaluate; \<open>has_component item\<close> says that the item
  is a dictionary holding a string under the exact key \<^verbatim>\<open>Component\<close>.
\<close>

definition component_lower :: "json \<Rightarrow> py_error + string" where
  "component_lower item =
     (case subscript item ''Component'' of Inl e \<Rightarrow> Inl e | Inr v \<Rightarrow> py_lower v)"

definition has_component :: "json \<Rightarrow> bool" where
  "has_component item =
     (case subscript item ''Component'' of Inr (JStr s) \<Rightarrow> True | _ \<Rightarrow> False)"

text \<open>
  The filter as the specification words it: the component of a record is the field
  \<^verbatim>\<open>component\<close> resolved without regard to case, a record whose component is absent
  or not a string matches no filter, and the records kept are those whose component
  equals the given name without regard to case, in their order.
\<close>

definition spec_component :: "json \<Rightarrow> string option" where
  "spec_component r =
     (case r of
        JObj kvs \<Rightarrow>
          (if list_ex (\<lambda>kv. lower (fst kv) = lower ''component'') kvs then
             (case normalize_field_name ''component'' kvs of JStr s \<Rightarrow> Some s | _ \<Rightarrow> None)
           else None)
      | _ \<Rightarrow> None)"

definition spec_filterByComponent :: "json list \<Rightarrow> string \<Rightarrow> json list" where
  "spec_filterByComponent records normalizedName =
     filter (\<lambda>r. case spec_component r of
                    Some s \<Rightarrow> lower s = lower normalizedName
                  | None \<Rightarrow> False) records"

text \<open>
  A record that holds a string under the exact key \<^verbatim>\<open>Component\<close> and has no other key
  spelled like it up to case.
\<close>

definition plain_record :: "json \<Rightarrow> bool" where
  "plain_record r =
     (case r of
        JObj kvs \<Rightarrow>
          (case map_of kvs ''Component'' of
             Some (JStr s) \<Rightarrow> length (filter (\<lambda>kv. lower (fst kv) = lower ''component'') kvs) \<le> 1
           | _ \<Rightarrow> False)
      | _ \<Rightarrow> False)"

text \<open>
  \<open>not_iterable v\<close>: a \<^verbatim>\<open>for\<close> loop over \<open>v\<close> raises; \<open>is_dict v\<close>: \<open>v\<close> is a dictionary;
  \<open>entry_text c\<close>: what \<^verbatim>\<open>c.get('comment', '')\<close> gives for a dictionary \<open>c\<close>.
\<close>

definition not_iterable :: "json \<Rightarrow> bool" where
  "not_iterable v =
     (case v of JNull \<Rightarrow> True | JBool b \<Rightarrow> True | JInt i \<Rightarrow> True | JFloat x \<Rightarrow> True | _ \<Rightarrow> False)"

definition is_dict :: "json \<Rightarrow> bool" where
  "is_dict v = (case v of JObj kvs \<Rightarrow> True | _ \<Rightarrow> False)"

definition entry_text :: "json \<Rightarrow> json" where
  "entry_text comment_obj =
     (case comment_obj of
        JObj kvs \<Rightarrow> (case map_of kvs ''comment'' of None \<Rightarrow> JStr '''' | Some v \<Rightarrow> v)
      | _ \<Rightarrow> JStr '''')"

text \<open>
  The comment texts of the records of a component, as the specification words them:
  \<open>comments_ok r\<close> says that the \<^verbatim>\<open>Comment\<close> field of the record is absent or a list of
  dictionaries, \<open>comment_texts r\<close> are the texts of its comments in their order, and
  \<open>matching_comment_texts\<close> are the texts of the records whose component equals the
  selected one up to case, in record order.
\<close>

definition comments_ok :: "json \<Rightarrow> bool" where
  "comments_ok r =
     (case r of
        JObj kvs \<Rightarrow>
          (case map_of kvs ''Comment'' of
             None \<Rightarrow> True
           | Some (JArr entries) \<Rightarrow> list_all is_dict entries
           | Some _ \<Rightarrow> False)
      | _ \<Rightarrow> False)"

definition comment_texts :: "json \<Rightarrow> json list" where
  "comment_texts r =
     (case r of
        JObj kvs \<Rightarrow>
          (case map_of kvs ''Comment'' of
             Some (JArr entries) \<Rightarrow> map entry_text entries
           | _ \<Rightarrow> [])
      | _ \<Rightarrow> [])"

definition matching_comment_texts :: "string \<Rightarrow> json list \<Rightarrow> json list" where
  "matching_comment_texts selected_component records =
     concat (map comment_texts
       (filter (\<lambda>r. component_lower r = Inr (lower selected_component)) records))"

subsection \<open>Sample inputs\<close>

definition sample_client :: client where
  "sample_client req = Inr ''summary''"

definition failing_client :: client where
  "failing_client req = Inl (APIError ''timeout'')"

definition empty_world :: world where
  "empty_world = \<lparr> ui_errors = [], requests = [] \<rparr>"

definition record_ui_slow :: json where
  "record_ui_slow =
     JObj [(''Component'', JStr ''UI''), (''Comment'', JArr [JObj [(''comment'', JStr ''slow'')]])]"

definition record_ui_crash :: json where
  "record_ui_crash =
     JObj [(''Component'', JStr ''ui''), (''Comment'', JArr [JObj [(''comment'', JStr ''crash'')]])]"

definition record_auth_empty :: json where
  "record_auth_empty = JObj [(''Component'', JStr ''Auth''), (''Comment'', JArr [])]"

definition record_lines :: json where
  "record_lines =
     JObj [(''Component'', JStr ''Auth''),
           (''Comment'', JArr [JObj [(''comment'', JStr ''line1'')], JObj [(''comment'', JStr ''line2'')]])]"

definition comment_b :: json where
  "comment_b = JObj [(''comment'', JStr ''b'')]"


definition comment_long :: json where
  "comment_long = JObj [(''comment'', JStr (replicate 150 (CHR ''x'')))]"

definition record_lowercase_key :: json where
  "record_lowercase_key = JObj [(''component'', JStr ''auth'')]"

definition record_both_keys :: json where
  "record_both_keys = JObj [(''Component'', JStr ''billing''), (''component'', JStr ''auth'')]"

definition two_spellings :: "(string \<times> json) list" where
  "two_spellings = [(''Component'', JStr ''a''), (''component'', JStr ''b'')]"

definition one_spelling :: "(string \<times> json) list" where
  "one_spelling = [(''JiraID'', JStr ''J-1''), (''Component'', JStr ''UI'')]"

definition record_no_component :: json where
  "record_no_component = JObj [(''Summary'', JStr ''login fails''), (''Comment'', JArr [])]"

definition record_numeric_component :: json where
  "record_numeric_component = JObj [(''Component'', JInt 7), (''Comment'', JArr [])]"

definition record_missing_key :: json where
  "record_missing_key =
     JObj [(''Component'', JStr ''ui''), (''Comment'', JArr [JObj [(''text'', JStr ''orphan'')]])]"

definition record_numeric_comment :: json where
  "record_numeric_comment = JObj [(''Component'', JStr ''ui''), (''Comment'', JInt 5)]"

definition record_text_comment :: json where
  "record_text_comment = JObj [(''Component'', JStr ''ui''), (''Comment'', JStr ''slow'')]"

section \<open>Properties of the aggregation\<close>

lemma str_items_strings: "str_items (map JStr ts) = Inr ts"
  by (induction ts) simp_all

lemma process_body_JArr:
  "process_body cl (JArr records) sel extra w =
     (case aggregate_comments sel [] records of
        Inl e \<Rightarrow> (Inl e, w)
      | Inr acc \<Rightarrow>
          if acc \<noteq> [] then
            (case py_join acc of
               Inl e \<Rightarrow> (Inl e, w)
             | Inr text \<Rightarrow>
                 (case summarize_with_llm cl (text @ [newline, newline] @ extra) w of
                    (Inl e, w') \<Rightarrow> (Inl e, w')
                  | (Inr a, w') \<Rightarrow> (Inr (Some \<lparr>Component = sel, Analysis = a\<rparr>), w')))
          else (Inr None, w))"
  by (simp add: process_body_def Let_def split: sum.splits)

lemma empty_accumulated_no_result:
  assumes "aggregate_comments selected_component [] records = Inr []"
  shows "process_selected_component cl (JArr records) selected_component additional_text w
           = (Inr None, w)"
  using assms by (simp add: process_selected_component_def process_body_JArr)

lemma payload_from_accumulated:
  assumes "aggregate_comments selected_component [] records = Inr [JStr ''line1'', JStr ''line2'']"
  shows "process_body cl (JArr records) selected_component ''focus on X'' w =
           (case summarize_with_llm cl ''line1\<newline>line2\<newline>\<newline>focus on X'' w of
              (Inl e, w') \<Rightarrow> (Inl e, w')
            | (Inr a, w') \<Rightarrow> (Inr (Some \<lparr>Component = selected_component, Analysis = a\<rparr>), w'))
         \<and> requests (snd (process_selected_component cl (JArr records) selected_component
                              ''focus on X'' w)) =
             requests w @ [completion_request ''line1\<newline>line2\<newline>\<newline>focus on X'']"
proof -
  have j: "py_join [JStr ''line1'', JStr ''line2''] = Inr ''line1\<newline>line2''"
    by (simp add: py_join_def newline_def)
  have b: "process_body cl (JArr records) selected_component ''focus on X'' w =
           (case summarize_with_llm cl ''line1\<newline>line2\<newline>\<newline>focus on X'' w of
              (Inl e, w') \<Rightarrow> (Inl e, w')
            | (Inr a, w') \<Rightarrow> (Inr (Some \<lparr>Component = selected_component, Analysis = a\<rparr>), w'))"
    using assms by (simp add: process_body_JArr j) (simp add: newline_def)
  have r: "requests (snd (process_selected_component cl (JArr records) selected_component
                             ''focus on X'' w)) =
             requests w @ [completion_request ''line1\<newline>line2\<newline>\<newline>focus on X'']"
    by (simp add: process_selected_component_def b summarize_with_llm_def Let_def st_error_def
          split: sum.splits)
  from b r show ?thesis by simp
qed

section \<open>Properties of the comment formatter\<close>

lemma format_loop_closed:
  "list_all2 has_text cs ts \<Longrightarrow>
   format_loop i acc cs =
     Inr (acc @ map (\<lambda>(k, t). numbered_line k t) (zip [i ..< i + length ts] ts))"
proof (induction cs ts arbitrary: i acc rule: list_all2_induct)
  case Nil
  then show ?case by simp
next
  case (Cons c cs t ts)
  have up: "[i ..< i + length (t # ts)] = i # [Suc i ..< Suc i + length ts]"
    by (simp add: upt_rec)
  from Cons.hyps(1) have "subscript c ''comment'' = Inr (JStr t)"
    by (simp add: has_text_def)
  then show ?case
    by (simp only: up) (simp add: Cons.IH numbered_line_def shorten_def collapse_def Let_def)
qed

lemma format_comments_closed:
  assumes "list_all2 has_text cs ts"
  shows "format_comments (JArr cs) =
           Inr (join [newline] (map (\<lambda>(k, t). numbered_line k t) (zip [1 ..< 1 + length ts] ts)))"
  using format_loop_closed [OF assms, of 1 "[]"] by (simp add: format_comments_def)

lemma numbered_lines_nth:
  assumes "i < length ts"
  shows "map (\<lambda>(k, t). numbered_line k t) (zip [1 ..< 1 + length ts] ts) ! i
           = numbered_line (i + 1) (ts ! i)"
  using assms by (simp del: upt_Suc)

lemma length_collapse: "length (collapse t) = length t"
  by (simp add: collapse_def replace_char_def)

lemma collapse_no_newline: "newline \<notin> set t \<Longrightarrow> collapse t = t"
  by (induction t) (auto simp: collapse_def replace_char_def)


lemma str_nat_1: "str_nat 1 = ''1''"
  by code_simp

lemma str_nat_2: "str_nat 2 = ''2''"
  by code_simp

lemma str_nat_Suc_0: "str_nat (Suc 0) = ''1''"
  using str_nat_1 by simp

lemma str_nat_Suc_Suc_0: "str_nat (Suc (Suc 0)) = ''2''"
  using str_nat_2 by (simp add: numeral_2_eq_2)






lemma two_lines_eq:
  assumes "length ls = 2" "ls ! 0 = a" "ls ! 1 = b"
  shows "ls = [a, b]"
  using assms by (auto simp: list_eq_iff_nth_eq less_Suc_eq numeral_2_eq_2)



text \<open>
  C7. In the formatted output, a text whose collapsed form is longer than 100
  characters appears as its first 97 characters followed by three dots, 100
  characters in all; so does a text of 150 characters without a newline; a text of at
  most 100 characters appears whole.
\<close>

theorem long_comment_truncated:
  assumes "list_all2 has_text cs ts"
  shows "\<exists>lines. format_comments (JArr cs) = Inr (join ''\<newline>'' lines)
           \<and> length lines = length ts
           \<and> (\<forall>i < length ts.
                 (100 < length (collapse (ts ! i)) \<longrightarrow>
                    lines ! i = str_nat (i + 1) @ ''. '' @ take 97 (collapse (ts ! i)) @ ''...''
                    \<and> length (take 97 (collapse (ts ! i))) = 97
                    \<and> length (take 97 (collapse (ts ! i)) @ ''...'') = 100)
               \<and> (length (ts ! i) = 150 \<and> CHR ''\<newline>'' \<notin> set (ts ! i) \<longrightarrow>
                    lines ! i = str_nat (i + 1) @ ''. '' @ take 97 (ts ! i) @ ''...'')
               \<and> (length (collapse (ts ! i)) \<le> 100 \<longrightarrow>
                    lines ! i = str_nat (i + 1) @ ''. '' @ collapse (ts ! i)))"
proof -
  let ?lines = "map (\<lambda>(k, t). numbered_line k t) (zip [1 ..< 1 + length ts] ts)"
  have 1: "format_comments (JArr cs) = Inr (join ''\<newline>'' ?lines)"
    using format_comments_closed [OF assms(1)] by (simp add: newline_def)
  have 2: "length ?lines = length ts" by (simp del: upt_Suc)
  have 3: "?lines ! i = str_nat (i + 1) @ ''. '' @ shorten (collapse (ts ! i))"
    if "i < length ts" for i
    using numbered_lines_nth [OF that] by (simp add: numbered_line_def)
  have 4: "100 < length (collapse (ts ! i)) \<longrightarrow>
             ?lines ! i = str_nat (i + 1) @ ''. '' @ take 97 (collapse (ts ! i)) @ ''...''
             \<and> length (take 97 (collapse (ts ! i))) = 97
             \<and> length (take 97 (collapse (ts ! i)) @ ''...'') = 100"
    if "i < length ts" for i
    using 3 [OF that] by (simp add: shorten_def)
  have 5: "length (ts ! i) = 150 \<and> CHR ''\<newline>'' \<notin> set (ts ! i) \<longrightarrow>
             ?lines ! i = str_nat (i + 1) @ ''. '' @ take 97 (ts ! i) @ ''...''"
    if "i < length ts" for i
    using 3 [OF that] collapse_no_newline [of "ts ! i"] by (simp add: shorten_def newline_def)
  have 6: "length (collapse (ts ! i)) \<le> 100 \<longrightarrow>
             ?lines ! i = str_nat (i + 1) @ ''. '' @ collapse (ts ! i)"
    if "i < length ts" for i
    using 3 [OF that] by (simp add: shorten_def)
  from 1 2 4 5 6 show ?thesis by blast
qed

theorem long_comment_truncated_witness:
  "list_all2 has_text [comment_long, comment_b] [replicate 150 (CHR ''x''), ''b'']
   \<and> format_comments (JArr [comment_long, comment_b])
       = Inr (''1. '' @ replicate 97 (CHR ''x'') @ ''...'' @ ''\<newline>'' @ ''2. b'')"
proof -
  let ?ts = "[replicate 150 (CHR ''x''), ''b'']"
  have h: "list_all2 has_text [comment_long, comment_b] ?ts"
    by (simp add: has_text_def comment_long_def comment_b_def)
  from long_comment_truncated [OF h] obtain lines where
    f: "format_comments (JArr [comment_long, comment_b]) = Inr (join ''\<newline>'' lines)"
    and l: "length lines = length ?ts"
    and n: "\<forall>i < length ?ts.
              (length (?ts ! i) = 150 \<and> CHR ''\<newline>'' \<notin> set (?ts ! i) \<longrightarrow>
                    lines ! i = str_nat (i + 1) @ ''. '' @ take 97 (?ts ! i) @ ''...'')
               \<and> (length (collapse (?ts ! i)) \<le> 100 \<longrightarrow>
                    lines ! i = str_nat (i + 1) @ ''. '' @ collapse (?ts ! i))"
    by blast
  from n have "lines ! 0 = ''1. '' @ replicate 97 (CHR ''x'') @ ''...''"
    by (simp add: str_nat_Suc_0)
  moreover from n have "lines ! 1 = ''2. b''"
    by (simp add: str_nat_Suc_Suc_0 length_collapse collapse_def replace_char_def newline_def)
  moreover from l have "length lines = 2" by simp
  ultimately have "lines = [''1. '' @ replicate 97 (CHR ''x'') @ ''...'', ''2. b'']"
    by (simp add: two_lines_eq)
  with f h show ?thesis by simp
qed

section \<open>Outcome of the aggregation function\<close>

lemma process_selected_component_cases:
  "process_selected_component cl d s t w =
     (case process_body cl d s t w of
        (Inl e, w') \<Rightarrow> (Inr None, st_error (Error_processing_component e) w')
      | (Inr r, w') \<Rightarrow> (Inr r, w'))"
  by (simp add: process_selected_component_def)

lemma process_body_result:
  "fst (process_body cl d s t w) = Inr r \<Longrightarrow>
     r = None \<or> (\<exists>a. r = Some \<lparr>Component = s, Analysis = a\<rparr>)"
  by (auto simp: process_body_def summarize_with_llm_def Let_def
           split: sum.splits if_splits prod.splits)

text \<open>
  C10. The function returns \<^verbatim>\<open>None\<close> or a result for the selected component and raises
  nothing; an exception raised in its body gives \<^verbatim>\<open>None\<close> (with one error message
  shown), the same return value as an aggregation that collected no comment.
\<close>

theorem process_selected_component_returns:
  "(\<exists>w'. process_selected_component cl json_data selected_component additional_text w
            = (Inr None, w')
       \<or> (\<exists>a. process_selected_component cl json_data selected_component additional_text w
            = (Inr (Some \<lparr>Component = selected_component, Analysis = a\<rparr>), w')))
   \<and> (\<forall>e w'. process_body cl json_data selected_component additional_text w = (Inl e, w') \<longrightarrow>
         process_selected_component cl json_data selected_component additional_text w
           = (Inr None, st_error (Error_processing_component e) w'))
   \<and> (\<forall>items. py_iter json_data = Inr items \<and> aggregate_comments selected_component [] items = Inr [] \<longrightarrow>
         process_selected_component cl json_data selected_component additional_text w
           = (Inr None, w))"
proof -
  obtain x w1 where b: "process_body cl json_data selected_component additional_text w = (x, w1)"
    by (cases "process_body cl json_data selected_component additional_text w")
  have 1: "\<exists>w'. process_selected_component cl json_data selected_component additional_text w
            = (Inr None, w')
       \<or> (\<exists>a. process_selected_component cl json_data selected_component additional_text w
            = (Inr (Some \<lparr>Component = selected_component, Analysis = a\<rparr>), w'))"
  proof (cases x)
    case (Inl e)
    with b show ?thesis by (simp add: process_selected_component_cases)
  next
    case (Inr r)
    with b have "fst (process_body cl json_data selected_component additional_text w) = Inr r"
      by simp
    from process_body_result [OF this] Inr b show ?thesis
      by (auto simp: process_selected_component_cases)
  qed
  have 2: "\<forall>e w'. process_body cl json_data selected_component additional_text w = (Inl e, w') \<longrightarrow>
         process_selected_component cl json_data selected_component additional_text w
           = (Inr None, st_error (Error_processing_component e) w')"
    by (simp add: process_selected_component_cases)
  have 3: "\<forall>items. py_iter json_data = Inr items \<and> aggregate_comments selected_component [] items = Inr [] \<longrightarrow>
         process_selected_component cl json_data selected_component additional_text w
           = (Inr None, w)"
    by (simp add: process_selected_component_cases process_body_def)
  from 1 2 3 show ?thesis by blast
qed

theorem process_selected_component_returns_witness:
  "process_body failing_client (JArr [record_ui_slow]) ''ui'' ''more'' empty_world
      = (Inl (APIError ''timeout''),
         \<lparr> ui_errors = [], requests = [completion_request ''slow\<newline>\<newline>more''] \<rparr>)
   \<and> process_selected_component failing_client (JArr [record_ui_slow]) ''ui'' ''more'' empty_world
      = (Inr None,
         \<lparr> ui_errors = [Error_processing_component (APIError ''timeout'')],
           requests = [completion_request ''slow\<newline>\<newline>more''] \<rparr>)
   \<and> py_iter (JArr [record_ui_slow]) = Inr [record_ui_slow]
   \<and> aggregate_comments ''auth'' [] [record_ui_slow] = Inr []
   \<and> process_selected_component failing_client (JArr [record_ui_slow]) ''auth'' ''more'' empty_world
      = (Inr None, empty_world)"
proof -
  have a: "aggregate_comments ''ui'' [] [record_ui_slow] = Inr [JStr ''slow'']"
    by code_simp
  have b: "process_body failing_client (JArr [record_ui_slow]) ''ui'' ''more'' empty_world
      = (Inl (APIError ''timeout''),
         \<lparr> ui_errors = [], requests = [completion_request ''slow\<newline>\<newline>more''] \<rparr>)"
    by (simp only: process_body_JArr a)
       (simp add: py_join_def summarize_with_llm_def failing_client_def
          empty_world_def Let_def newline_def)
  have i: "py_iter (JArr [record_ui_slow]) = Inr [record_ui_slow]" by simp
  have n: "aggregate_comments ''auth'' [] [record_ui_slow] = Inr []"
    by code_simp
  from process_selected_component_returns
         [of failing_client "JArr [record_ui_slow]" "''ui''" "''more''" empty_world] b
  have 1: "process_selected_component failing_client (JArr [record_ui_slow]) ''ui'' ''more'' empty_world
      = (Inr None,
         \<lparr> ui_errors = [Error_processing_component (APIError ''timeout'')],
           requests = [completion_request ''slow\<newline>\<newline>more''] \<rparr>)"
    by (simp add: st_error_def)
  from process_selected_component_returns
         [of failing_client "JArr [record_ui_slow]" "''auth''" "''more''" empty_world] i n
  have 2: "process_selected_component failing_client (JArr [record_ui_slow]) ''auth'' ''more'' empty_world
      = (Inr None, empty_world)"
    by blast
  from b 1 i n 2 show ?thesis by simp
qed

section \<open>Properties of the field lookup\<close>

lemma scan_keys_find:
  "scan_keys f kvs =
     (case find (\<lambda>kv. lower (fst kv) = lower f) kvs of
        Some kv \<Rightarrow> snd kv
      | None \<Rightarrow> JStr ''N/A'')"
  by (induction kvs) auto

lemma scan_keys_lower: "lower f = lower g \<Longrightarrow> scan_keys f kvs = scan_keys g kvs"
  by (simp add: scan_keys_find)

lemma map_of_matches:
  "map_of kvs f = Some v \<Longrightarrow> filter (\<lambda>kv. lower (fst kv) = lower f) kvs \<noteq> []"
  by (induction kvs) (auto split: if_splits)

lemma exact_is_first_match:
  assumes "length (filter (\<lambda>kv. lower (fst kv) = lower f) kvs) \<le> 1"
    and "map_of kvs f = Some v"
  shows "scan_keys f kvs = v"
  using assms
proof (induction kvs)
  case Nil
  then show ?case by simp
next
  case (Cons kv kvs)
  obtain k v0 where kv: "kv = (k, v0)" by (cases kv)
  show ?case
  proof (cases "k = f")
    case True
    with Cons.prems kv show ?thesis by simp
  next
    case False
    with Cons.prems kv have m: "map_of kvs f = Some v" by simp
    from map_of_matches [OF m] have ne: "filter (\<lambda>kv. lower (fst kv) = lower f) kvs \<noteq> []" .
    show ?thesis
    proof (cases "lower k = lower f")
      case True
      with Cons.prems(1) kv have "length (filter (\<lambda>kv. lower (fst kv) = lower f) kvs) = 0"
        by simp
      with ne show ?thesis by simp
    next
      case False
      with Cons.prems(1) kv have "length (filter (\<lambda>kv. lower (fst kv) = lower f) kvs) \<le> 1"
        by simp
      from Cons.IH [OF this m] False kv show ?thesis by simp
    qed
  qed
qed

lemma normalize_is_scan:
  assumes "length (filter (\<lambda>kv. lower (fst kv) = lower f) kvs) \<le> 1"
  shows "normalize_field_name f kvs = scan_keys f kvs"
  using exact_is_first_match [OF assms]
  by (simp add: normalize_field_name_def split: option.splits)

lemma lower_COMPONENT: "lower ''COMPONENT'' = ''component''"
  by code_simp

lemma lower_Component: "lower ''Component'' = ''component''"
  by code_simp

lemma lower_component: "lower ''component'' = ''component''"
  by code_simp

text \<open>
  C8, as amended. The lookup returns the value under the exactly matching key if there
  is one, otherwise the value of the first key equal to the field name up to case,
  otherwise \<^verbatim>\<open>N/A\<close>. For a record with at most one key spelled like \<^verbatim>\<open>component\<close> up
  to case, the three spellings \<^verbatim>\<open>component\<close>, \<^verbatim>\<open>COMPONENT\<close> and \<^verbatim>\<open>Component\<close> resolve to
  the same value.
\<close>

theorem normalize_field_name_first_match:
  "normalize_field_name field_name data =
     (case map_of data field_name of
        Some v \<Rightarrow> v
      | None \<Rightarrow>
          (case find (\<lambda>kv. lower (fst kv) = lower field_name) data of
             Some kv \<Rightarrow> snd kv
           | None \<Rightarrow> JStr ''N/A''))
   \<and> (length (filter (\<lambda>kv. lower (fst kv) = ''component'') data) \<le> 1 \<longrightarrow>
         normalize_field_name ''component'' data = normalize_field_name ''COMPONENT'' data
       \<and> normalize_field_name ''COMPONENT'' data = normalize_field_name ''Component'' data)"
proof -
  have 1: "normalize_field_name field_name data =
     (case map_of data field_name of
        Some v \<Rightarrow> v
      | None \<Rightarrow>
          (case find (\<lambda>kv. lower (fst kv) = lower field_name) data of
             Some kv \<Rightarrow> snd kv
           | None \<Rightarrow> JStr ''N/A''))"
    by (simp add: normalize_field_name_def scan_keys_find split: option.splits)
  have 2: "normalize_field_name ''component'' data = normalize_field_name ''COMPONENT'' data
       \<and> normalize_field_name ''COMPONENT'' data = normalize_field_name ''Component'' data"
    if h: "length (filter (\<lambda>kv. lower (fst kv) = ''component'') data) \<le> 1"
  proof -
    have a: "normalize_field_name ''component'' data = scan_keys ''component'' data"
      using h by (intro normalize_is_scan) (simp only: lower_component)
    have b: "normalize_field_name ''COMPONENT'' data = scan_keys ''COMPONENT'' data"
      using h by (intro normalize_is_scan) (simp only: lower_COMPONENT)
    have c: "normalize_field_name ''Component'' data = scan_keys ''Component'' data"
      using h by (intro normalize_is_scan) (simp only: lower_Component)
    have "scan_keys ''component'' data = scan_keys ''COMPONENT'' data"
      by (rule scan_keys_lower) (simp only: lower_component lower_COMPONENT)
    moreover have "scan_keys ''COMPONENT'' data = scan_keys ''Component'' data"
      by (rule scan_keys_lower) (simp only: lower_Component lower_COMPONENT)
    ultimately show ?thesis using a b c by simp
  qed
  from 1 2 show ?thesis by blast
qed

theorem normalize_field_name_first_match_witness:
  "length (filter (\<lambda>kv. lower (fst kv) = ''component'') one_spelling) \<le> 1
   \<and> normalize_field_name ''component'' one_spelling = JStr ''UI''
   \<and> normalize_field_name ''COMPONENT'' one_spelling = JStr ''UI''
   \<and> normalize_field_name ''Component'' one_spelling = JStr ''UI''"
proof -
  have h: "length (filter (\<lambda>kv. lower (fst kv) = ''component'') one_spelling) \<le> 1"
    by code_simp
  have e: "normalize_field_name ''Component'' one_spelling = JStr ''UI''"
    by (simp add: normalize_field_name_def one_spelling_def)
  from normalize_field_name_first_match [of "''component''" one_spelling] h
  have "normalize_field_name ''component'' one_spelling = normalize_field_name ''COMPONENT'' one_spelling
      \<and> normalize_field_name ''COMPONENT'' one_spelling = normalize_field_name ''Component'' one_spelling"
    by blast
  with h e show ?thesis by simp
qed

text \<open>
  C8, as stated, fails on a record with the keys \<^verbatim>\<open>Component\<close> and \<^verbatim>\<open>component\<close>: each
  spelling matches its own key exactly.
\<close>

theorem resolve_spellings_counterexample:
  "distinct (map fst two_spellings)
   \<and> normalize_field_name ''component'' two_spellings = JStr ''b''
   \<and> normalize_field_name ''Component'' two_spellings = JStr ''a''
   \<and> normalize_field_name ''component'' two_spellings \<noteq> normalize_field_name ''Component'' two_spellings"
  by (simp add: normalize_field_name_def two_spellings_def)

section \<open>Properties of the component index\<close>

lemma has_component_lower:
  "has_component r \<Longrightarrow> \<exists>s. subscript r ''Component'' = Inr (JStr s) \<and> component_lower r = Inr (lower s)"
  by (auto simp: has_component_def component_lower_def split: sum.splits json.splits)

lemma lower_char_idem: "lower_char (lower_char c) = lower_char c"
  by (auto simp: lower_char_def Let_def)

lemma lower_idem: "lower (lower s) = lower s"
  by (simp add: lower_def lower_char_idem)

lemma component_lower_lowered: "component_lower r = Inr n \<Longrightarrow> lower n = n"
  by (auto simp: component_lower_def lower_idem split: sum.splits elim: py_lower.elims)

lemma component_names_closed:
  "list_all has_component records \<Longrightarrow>
   \<exists>names. component_names records = Inr names
          \<and> map Inr names = map component_lower records"
proof (induction records)
  case Nil
  then show ?case by simp
next
  case (Cons r rs)
  then obtain names where n: "component_names rs = Inr names"
      "map Inr names = map component_lower rs" by auto
  from Cons.prems have "has_component r" by simp
  from has_component_lower [OF this] obtain s where
    s: "subscript r ''Component'' = Inr (JStr s)" "component_lower r = Inr (lower s)" by blast
  with n show ?case by simp
qed

lemma filter_items_closed:
  "list_all has_component records \<Longrightarrow>
   filter_items name records = Inr (filter (\<lambda>r. component_lower r = Inr (lower name)) records)"
proof (induction records)
  case Nil
  then show ?case by simp
next
  case (Cons r rs)
  from Cons.prems have "has_component r" by simp
  from has_component_lower [OF this] obtain s where
    s: "subscript r ''Component'' = Inr (JStr s)" "component_lower r = Inr (lower s)" by blast
  with Cons show ?case by simp
qed

lemma plain_record_spec:
  assumes "plain_record r"
  shows "has_component r
       \<and> (\<exists>s. spec_component r = Some s \<and> component_lower r = Inr (lower s))"
proof -
  from assms obtain kvs where r: "r = JObj kvs"
    by (cases r) (simp_all add: plain_record_def)
  with assms obtain v where m0: "map_of kvs ''Component'' = Some v"
    by (cases "map_of kvs ''Component''") (simp_all add: plain_record_def)
  with assms r obtain s where v: "v = JStr s"
    by (cases v) (simp_all add: plain_record_def)
  from m0 v have m: "map_of kvs ''Component'' = Some (JStr s)" by simp
  from assms r m have u: "length (filter (\<lambda>kv. lower (fst kv) = lower ''component'') kvs) \<le> 1"
    by (simp add: plain_record_def)
  have lc: "lower ''component'' = lower ''Component''"
    by (simp only: lower_component lower_Component)
  from u have u': "length (filter (\<lambda>kv. lower (fst kv) = lower ''Component'') kvs) \<le> 1"
    by (simp only: lc)
  have "normalize_field_name ''component'' kvs = scan_keys ''component'' kvs"
    using u by (rule normalize_is_scan)
  also have "\<dots> = scan_keys ''Component'' kvs"
    using lc by (rule scan_keys_lower)
  also have "\<dots> = JStr s"
    using u' m by (rule exact_is_first_match)
  finally have n: "normalize_field_name ''component'' kvs = JStr s" .
  have "filter (\<lambda>kv. lower (fst kv) = lower ''component'') kvs \<noteq> []"
    unfolding lc by (rule map_of_matches [OF m])
  then have ex: "list_ex (\<lambda>kv. lower (fst kv) = lower ''component'') kvs"
    by (auto simp: list_ex_iff filter_empty_conv)
  from r m n ex show ?thesis
    by (simp add: has_component_def spec_component_def component_lower_def)
qed

text \<open>
  C9, as amended. For records that each hold a string under the exact key
  \<^verbatim>\<open>Component\<close>, the component list is
  sorted ascending in the lexicographic order of strings, has no duplicate, consists
  of exactly the lower-cased component values of the records, and has no two entries
  that are equal up to case.
\<close>

theorem components_sorted_distinct:
  assumes "list_all has_component records"
  shows "\<exists>cs. components (JArr records) = Inr cs
            \<and> sorted cs \<and> distinct cs
            \<and> Inr ` set cs = component_lower ` set records
            \<and> (\<forall>a \<in> set cs. \<forall>b \<in> set cs. lower a = lower b \<longrightarrow> a = b)"
proof -
  from component_names_closed [OF assms] obtain names where
    n: "component_names records = Inr names" and m: "map Inr names = map component_lower records"
    by blast
  let ?cs = "sort (remdups names)"
  have 1: "components (JArr records) = Inr ?cs"
    using n by (simp add: components_def)
  have 2: "sorted ?cs" by simp
  have 3: "distinct ?cs" by simp
  have "set (map Inr names) = set (map component_lower records)"
    using m by simp
  then have 4: "Inr ` set ?cs = component_lower ` set records"
    by simp
  have low: "lower a = a" if "a \<in> set ?cs" for a
  proof -
    from that have "Inr a \<in> Inr ` set ?cs" by blast
    with 4 obtain r where "component_lower r = Inr a" by (metis imageE)
    then show ?thesis by (rule component_lower_lowered)
  qed
  have 5: "\<forall>a \<in> set ?cs. \<forall>b \<in> set ?cs. lower a = lower b \<longrightarrow> a = b"
    using low by metis
  from 1 2 3 4 5 show ?thesis by blast
qed

theorem components_sorted_distinct_witness:
  "list_all has_component [record_ui_slow, record_auth_empty, record_ui_crash]
   \<and> components (JArr [record_ui_slow, record_auth_empty, record_ui_crash]) = Inr [''auth'', ''ui'']"
proof -
  have h: "list_all has_component [record_ui_slow, record_auth_empty, record_ui_crash]"
    by (simp add: has_component_def record_ui_slow_def record_auth_empty_def record_ui_crash_def)
  have e: "components (JArr [record_ui_slow, record_auth_empty, record_ui_crash]) = Inr [''auth'', ''ui'']"
    by code_simp
  from components_sorted_distinct [OF h] obtain cs where
    "components (JArr [record_ui_slow, record_auth_empty, record_ui_crash]) = Inr cs" "sorted cs"
    by blast
  with h e show ?thesis by simp
qed

text \<open>
  C9, as stated, fails: for a record whose key is spelled \<^verbatim>\<open>component\<close> the component
  resolves to \<^verbatim>\<open>auth\<close>, but building the component list raises \<^verbatim>\<open>KeyError\<close>.
\<close>

theorem components_lowercase_key_counterexample:
  "wf_json (JArr [record_lowercase_key])
   \<and> spec_component record_lowercase_key = Some ''auth''
   \<and> components (JArr [record_lowercase_key]) = Inl (KeyError ''Component'')"
  by code_simp

text \<open>
  C2, as amended. For records that each hold a string under the exact key
  \<^verbatim>\<open>Component\<close>, the filter returns exactly the records whose \<^verbatim>\<open>Component\<close> value equals
  the given name up to case, in their original order; when moreover no record has
  another key spelled like \<^verbatim>\<open>component\<close> up to case, this is the filter of the
  specification on the resolved component field.
\<close>

theorem filtered_data_exact_key:
  "(list_all has_component records \<longrightarrow>
      filtered_data (JArr records) selected_component
        = Inr (filter (\<lambda>r. component_lower r = Inr (lower selected_component)) records))
   \<and> (list_all plain_record records \<longrightarrow>
      filtered_data (JArr records) selected_component
        = Inr (spec_filterByComponent records selected_component))"
proof -
  have 1: "filtered_data (JArr records) selected_component
        = Inr (filter (\<lambda>r. component_lower r = Inr (lower selected_component)) records)"
    if "list_all has_component records"
    using filter_items_closed [OF that] by (simp add: filtered_data_def)
  have 2: "filtered_data (JArr records) selected_component
        = Inr (spec_filterByComponent records selected_component)"
    if p: "list_all plain_record records"
  proof -
    from p have "list_all has_component records"
      using plain_record_spec by (auto simp: list_all_iff)
    from 1 [OF this] have "filtered_data (JArr records) selected_component
        = Inr (filter (\<lambda>r. component_lower r = Inr (lower selected_component)) records)" .
    moreover have "filter (\<lambda>r. component_lower r = Inr (lower selected_component)) records
        = spec_filterByComponent records selected_component"
      unfolding spec_filterByComponent_def
    proof (rule filter_cong [OF refl])
      fix r assume "r \<in> set records"
      with p have "plain_record r" by (simp add: list_all_iff)
      from plain_record_spec [OF this] obtain s where
        "spec_component r = Some s" "component_lower r = Inr (lower s)" by blast
      then show "(component_lower r = Inr (lower selected_component)) =
       (case spec_component r of None \<Rightarrow> False | Some s \<Rightarrow> lower s = lower selected_component)"
        by simp
    qed
    ultimately show ?thesis by simp
  qed
  from 1 2 show ?thesis by blast
qed

theorem filtered_data_exact_key_witness:
  "list_all has_component [record_ui_slow, record_auth_empty, record_ui_crash]
   \<and> list_all plain_record [record_ui_slow, record_auth_empty, record_ui_crash]
   \<and> filtered_data (JArr [record_ui_slow, record_auth_empty, record_ui_crash]) ''Ui''
       = Inr [record_ui_slow, record_ui_crash]
   \<and> spec_filterByComponent [record_ui_slow, record_auth_empty, record_ui_crash] ''Ui''
       = [record_ui_slow, record_ui_crash]"
proof -
  let ?rs = "[record_ui_slow, record_auth_empty, record_ui_crash]"
  have h: "list_all has_component ?rs"
    by (simp add: has_component_def record_ui_slow_def record_auth_empty_def record_ui_crash_def)
  have p: "list_all plain_record ?rs"
    by code_simp
  have f: "filter (\<lambda>r. component_lower r = Inr (lower ''Ui'')) ?rs = [record_ui_slow, record_ui_crash]"
    by code_simp
  from filtered_data_exact_key [of ?rs "''Ui''"] h p
  have "filtered_data (JArr ?rs) ''Ui'' = Inr (filter (\<lambda>r. component_lower r = Inr (lower ''Ui'')) ?rs)"
    and "filtered_data (JArr ?rs) ''Ui'' = Inr (spec_filterByComponent ?rs ''Ui'')"
    by blast+
  with f h p show ?thesis by simp
qed

text \<open>
  C2, as stated, fails: a record whose key is spelled \<^verbatim>\<open>component\<close> resolves to a
  matching component, but the filter raises \<^verbatim>\<open>KeyError\<close>; a record with both spellings
  is kept by the specification's filter and dropped by the code.
\<close>

theorem filter_resolved_field_counterexample:
  "wf_json (JArr [record_lowercase_key, record_both_keys])
   \<and> spec_filterByComponent [record_lowercase_key] ''auth'' = [record_lowercase_key]
   \<and> filtered_data (JArr [record_lowercase_key]) ''auth'' = Inl (KeyError ''Component'')
   \<and> spec_filterByComponent [record_both_keys] ''auth'' = [record_both_keys]
   \<and> filtered_data (JArr [record_both_keys]) ''auth'' = Inr []"
  by code_simp

section \<open>Records the loops do not accept\<close>

lemma filter_items_stops:
  "filter_items name pre = Inr kept \<Longrightarrow> component_lower bad = Inl e \<Longrightarrow>
   filter_items name (pre @ bad # post) = Inl e"
proof (induction pre arbitrary: kept)
  case Nil
  then show ?case
    by (auto simp: component_lower_def split: sum.splits)
next
  case (Cons r rs)
  from Cons.prems(1) obtain kept' where "filter_items name rs = Inr kept'"
    by (auto split: sum.splits)
  from Cons.IH [OF this Cons.prems(2)] Cons.prems(1) show ?case
    by (auto split: sum.splits)
qed

lemma aggregate_comments_stops:
  "aggregate_comments name acc0 pre = Inr acc \<Longrightarrow> component_lower bad = Inl e \<Longrightarrow>
   aggregate_comments name acc0 (pre @ bad # post) = Inl e"
proof (induction pre arbitrary: acc0)
  case Nil
  then show ?case
    by (auto simp: component_lower_def split: sum.splits)
next
  case (Cons r rs)
  then show ?case
    by (auto split: sum.splits if_splits)
qed

lemma component_lower_bad:
  assumes "\<not> (\<exists>s. map_of kvs ''Component'' = Some (JStr s))"
  shows "component_lower (JObj kvs) =
           Inl (if map_of kvs ''Component'' = None then KeyError ''Component''
                else AttributeError ''lower'')"
proof (cases "map_of kvs ''Component''")
  case None
  then show ?thesis by (simp add: component_lower_def)
next
  case (Some v)
  with assms have "\<And>s. v \<noteq> JStr s" by simp
  with Some show ?thesis by (cases v) (auto simp: component_lower_def)
qed

lemma process_raises:
  "aggregate_comments name [] records = Inl e \<Longrightarrow>
   process_selected_component cl (JArr records) name extra w
     = (Inr None, st_error (Error_processing_component e) w)"
  by (simp only: process_selected_component_cases process_body_JArr) simp

text \<open>
  C4, as amended. A record whose \<^verbatim>\<open>Component\<close> is absent or not a string is not
  skipped. When the records before it are accepted, the filter raises at this record
  (\<^verbatim>\<open>KeyError\<close> when the key is absent, \<^verbatim>\<open>AttributeError\<close> when the value is not a
  string), and the aggregation function stops there: it shows one error message with
  that exception and returns \<^verbatim>\<open>None\<close>, sending no request, whatever the other records
  hold.
\<close>

theorem bad_component_stops_aggregation:
  assumes "filter_items selected_component pre = Inr kept"
    and "aggregate_comments selected_component [] pre = Inr acc"
    and "\<not> (\<exists>s. map_of kvs ''Component'' = Some (JStr s))"
  shows "filtered_data (JArr (pre @ JObj kvs # post)) selected_component
           = Inl (if map_of kvs ''Component'' = None then KeyError ''Component''
                  else AttributeError ''lower'')
       \<and> process_selected_component cl (JArr (pre @ JObj kvs # post)) selected_component
             additional_text w
           = (Inr None,
              st_error (Error_processing_component
                          (if map_of kvs ''Component'' = None then KeyError ''Component''
                           else AttributeError ''lower'')) w)"
proof -
  let ?e = "if map_of kvs ''Component'' = None then KeyError ''Component''
            else AttributeError ''lower''"
  have b: "component_lower (JObj kvs) = Inl ?e"
    using assms(3) by (rule component_lower_bad)
  have 1: "filtered_data (JArr (pre @ JObj kvs # post)) selected_component = Inl ?e"
    using filter_items_stops [OF assms(1) b] by (simp add: filtered_data_def)
  have "aggregate_comments selected_component [] (pre @ JObj kvs # post) = Inl ?e"
    using assms(2) b by (rule aggregate_comments_stops)
  then have 2: "process_selected_component cl (JArr (pre @ JObj kvs # post)) selected_component
             additional_text w
           = (Inr None, st_error (Error_processing_component ?e) w)"
    by (simp only: process_selected_component_cases process_body_JArr) simp
  from 1 2 show ?thesis by simp
qed

theorem bad_component_stops_aggregation_witness:
  "filter_items ''ui'' [record_ui_slow] = Inr [record_ui_slow]
   \<and> aggregate_comments ''ui'' [] [record_ui_slow] = Inr [JStr ''slow'']
   \<and> \<not> (\<exists>s. map_of [(''Component'', JInt 7), (''Comment'', JArr [])] ''Component'' = Some (JStr s))
   \<and> filtered_data (JArr [record_ui_slow, record_numeric_component, record_ui_crash]) ''ui''
       = Inl (AttributeError ''lower'')
   \<and> process_selected_component sample_client
         (JArr [record_ui_slow, record_numeric_component, record_ui_crash]) ''ui'' ''more'' empty_world
       = (Inr None,
          \<lparr> ui_errors = [Error_processing_component (AttributeError ''lower'')], requests = [] \<rparr>)"
proof -
  have f: "filter_items ''ui'' [record_ui_slow] = Inr [record_ui_slow]"
    by code_simp
  have a: "aggregate_comments ''ui'' [] [record_ui_slow] = Inr [JStr ''slow'']"
    by code_simp
  have n: "\<not> (\<exists>s. map_of [(''Component'', JInt 7), (''Comment'', JArr [])] ''Component'' = Some (JStr s))"
    by simp
  from bad_component_stops_aggregation [OF f a n, of "[record_ui_crash]" sample_client "''more''" empty_world]
  have "filtered_data (JArr [record_ui_slow, record_numeric_component, record_ui_crash]) ''ui''
       = Inl (AttributeError ''lower'')
   \<and> process_selected_component sample_client
         (JArr [record_ui_slow, record_numeric_component, record_ui_crash]) ''ui'' ''more'' empty_world
       = (Inr None,
          \<lparr> ui_errors = [Error_processing_component (AttributeError ''lower'')], requests = [] \<rparr>)"
    by (simp add: record_numeric_component_def st_error_def empty_world_def)
  with f a n show ?thesis by blast
qed

text \<open>
  C4, as stated, fails: with a record lacking \<^verbatim>\<open>Component\<close> after a record of the
  selected component, the filter raises and the aggregation returns \<^verbatim>\<open>None\<close> with an
  error message, while without that record the same input is filtered and summarized.
\<close>

theorem skip_bad_component_counterexample:
  "wf_json (JArr [record_ui_slow, record_no_component])
   \<and> filtered_data (JArr [record_ui_slow, record_no_component]) ''ui'' = Inl (KeyError ''Component'')
   \<and> filtered_data (JArr [record_ui_slow]) ''ui'' = Inr [record_ui_slow]
   \<and> process_selected_component sample_client (JArr [record_ui_slow, record_no_component])
         ''ui'' ''more'' empty_world
       = (Inr None,
          \<lparr> ui_errors = [Error_processing_component (KeyError ''Component'')], requests = [] \<rparr>)
   \<and> process_selected_component sample_client (JArr [record_ui_slow]) ''ui'' ''more'' empty_world
       = (Inr (Some \<lparr>Component = ''ui'', Analysis = ''summary''\<rparr>),
          \<lparr> ui_errors = [], requests = [completion_request ''slow\<newline>\<newline>more''] \<rparr>)"
proof -
  have 1: "filtered_data (JArr [record_ui_slow, record_no_component]) ''ui'' = Inl (KeyError ''Component'')"
    by code_simp
  have 2: "filtered_data (JArr [record_ui_slow]) ''ui'' = Inr [record_ui_slow]"
    by code_simp
  have a: "aggregate_comments ''ui'' [] [record_ui_slow, record_no_component] = Inl (KeyError ''Component'')"
    by code_simp
  have b: "aggregate_comments ''ui'' [] [record_ui_slow] = Inr [JStr ''slow'']"
    by code_simp
  have 3: "process_selected_component sample_client (JArr [record_ui_slow, record_no_component])
         ''ui'' ''more'' empty_world
       = (Inr None,
          \<lparr> ui_errors = [Error_processing_component (KeyError ''Component'')], requests = [] \<rparr>)"
    by (simp only: process_selected_component_cases process_body_JArr a)
       (simp add: st_error_def empty_world_def)
  have 4: "process_selected_component sample_client (JArr [record_ui_slow]) ''ui'' ''more'' empty_world
       = (Inr (Some \<lparr>Component = ''ui'', Analysis = ''summary''\<rparr>),
          \<lparr> ui_errors = [], requests = [completion_request ''slow\<newline>\<newline>more''] \<rparr>)"
    by (simp only: process_selected_component_cases process_body_JArr b)
       (simp add: py_join_def summarize_with_llm_def sample_client_def empty_world_def Let_def
          newline_def)
  have 0: "wf_json (JArr [record_ui_slow, record_no_component])"
    by code_simp
  from 0 1 2 3 4 show ?thesis by blast
qed

section \<open>Malformed comments\<close>

lemma not_iterable_iter: "not_iterable v \<Longrightarrow> py_iter v = Inl TypeError"
  by (cases v) (simp_all add: not_iterable_def)

lemma append_comments_dicts:
  "list_all is_dict entries \<Longrightarrow> append_comments acc entries = Inr (acc @ map entry_text entries)"
proof (induction entries arbitrary: acc)
  case Nil
  then show ?case by simp
next
  case (Cons c cs)
  from Cons.prems obtain kvs where "c = JObj kvs"
    by (cases c) (simp_all add: is_dict_def)
  with Cons show ?case
    by (simp add: entry_text_def split: option.splits)
qed

lemma append_comments_not_dict:
  assumes "list_all is_dict good" and "\<not> is_dict nd"
  shows "append_comments acc (good @ nd # rest) = Inl (AttributeError ''get'')"
  using assms
proof (induction good arbitrary: acc)
  case Nil
  then show ?case by (cases nd) (simp_all add: is_dict_def)
next
  case (Cons c cs)
  from Cons.prems obtain kvs where "c = JObj kvs"
    by (cases c) (simp_all add: is_dict_def)
  with Cons show ?case
    by (simp split: option.splits)
qed

lemma aggregate_comments_append:
  "aggregate_comments name acc0 pre = Inr acc \<Longrightarrow>
   aggregate_comments name acc0 (pre @ rest) = aggregate_comments name acc rest"
proof (induction pre arbitrary: acc0)
  case Nil
  then show ?case by simp
next
  case (Cons r rs)
  then show ?case
    by (auto split: sum.splits if_splits)
qed

lemma aggregate_matching_record:
  assumes "map_of kvs ''Component'' = Some (JStr s)" and "lower s = lower name"
    and "dict_get (JObj kvs) ''Comment'' (JArr []) = Inr cm"
  shows "aggregate_comments name acc (JObj kvs # post) =
           (case py_iter cm of
              Inl e \<Rightarrow> Inl e
            | Inr cs \<Rightarrow>
                (case append_comments acc cs of
                   Inl e \<Rightarrow> Inl e
                 | Inr acc' \<Rightarrow> aggregate_comments name acc' post))"
  using assms by (simp split: option.splits)

text \<open>
  C5, as amended. Take a record of the selected component that the loop reaches.
  When its \<^verbatim>\<open>Comment\<close> field is null, a boolean or a number, or when one of its comment
  entries is not a dictionary, the function stops: it shows one error message with the
  exception (\<^verbatim>\<open>TypeError\<close>, \<^verbatim>\<open>AttributeError\<close>) and returns \<^verbatim>\<open>None\<close>, sending no request.
  When all its comment entries are dictionaries the loop goes on, and an entry without
  the key \<^verbatim>\<open>comment\<close> contributes the empty string. A failure of the summarization goes
  through the same handler: one error message of the same form with the exception of
  the client, and \<^verbatim>\<open>None\<close>.
\<close>

theorem malformed_record_handling:
  assumes "aggregate_comments selected_component [] pre = Inr acc"
    and "map_of kvs ''Component'' = Some (JStr s)"
    and "lower s = lower selected_component"
    and "dict_get (JObj kvs) ''Comment'' (JArr []) = Inr cm"
  shows "(not_iterable cm \<longrightarrow>
            process_selected_component cl (JArr (pre @ JObj kvs # post)) selected_component
                additional_text w
              = (Inr None, st_error (Error_processing_component TypeError) w))
       \<and> (\<forall>good nd rest.
             py_iter cm = Inr (good @ nd # rest) \<and> list_all is_dict good \<and> \<not> is_dict nd \<longrightarrow>
             process_selected_component cl (JArr (pre @ JObj kvs # post)) selected_component
                 additional_text w
               = (Inr None, st_error (Error_processing_component (AttributeError ''get'')) w))
       \<and> (\<forall>entries.
             py_iter cm = Inr entries \<and> list_all is_dict entries \<longrightarrow>
             aggregate_comments selected_component [] (pre @ JObj kvs # post)
               = aggregate_comments selected_component (acc @ map entry_text entries) post)
       \<and> (\<forall>kvs'. map_of kvs' ''comment'' = None \<longrightarrow> entry_text (JObj kvs') = JStr '''')
       \<and> (\<forall>records texts e.
             aggregate_comments selected_component [] records = Inr (map JStr texts)
               \<and> texts \<noteq> []
               \<and> cl (completion_request (join ''\<newline>'' texts @ ''\<newline>\<newline>'' @ additional_text)) = Inl e \<longrightarrow>
             process_selected_component cl (JArr records) selected_component additional_text w
               = (Inr None,
                  st_error (Error_processing_component e)
                    (w\<lparr>requests := requests w @
                         [completion_request (join ''\<newline>'' texts @ ''\<newline>\<newline>'' @ additional_text)]\<rparr>)))"
proof -
  note step = aggregate_matching_record [OF assms(2,3,4)]
  have split: "aggregate_comments selected_component [] (pre @ JObj kvs # post)
                 = aggregate_comments selected_component acc (JObj kvs # post)"
    using assms(1) by (rule aggregate_comments_append)
  have 1: "process_selected_component cl (JArr (pre @ JObj kvs # post)) selected_component
                additional_text w
              = (Inr None, st_error (Error_processing_component TypeError) w)"
    if "not_iterable cm"
  proof -
    from not_iterable_iter [OF that]
    have "aggregate_comments selected_component [] (pre @ JObj kvs # post) = Inl TypeError"
      by (simp only: split step) simp
    then show ?thesis by (rule process_raises)
  qed
  have 2: "process_selected_component cl (JArr (pre @ JObj kvs # post)) selected_component
                 additional_text w
               = (Inr None, st_error (Error_processing_component (AttributeError ''get'')) w)"
    if "py_iter cm = Inr (good @ nd # rest)" "list_all is_dict good" "\<not> is_dict nd"
    for good nd rest
  proof -
    from append_comments_not_dict [OF that(2,3)] that(1)
    have "aggregate_comments selected_component [] (pre @ JObj kvs # post)
            = Inl (AttributeError ''get'')"
      by (simp only: split step) simp
    then show ?thesis by (rule process_raises)
  qed
  have 3: "aggregate_comments selected_component [] (pre @ JObj kvs # post)
               = aggregate_comments selected_component (acc @ map entry_text entries) post"
    if "py_iter cm = Inr entries" "list_all is_dict entries" for entries
    using append_comments_dicts [OF that(2)] that(1)
    by (simp only: split step) simp
  have 4: "entry_text (JObj kvs') = JStr ''''" if "map_of kvs' ''comment'' = None" for kvs'
    using that by (simp add: entry_text_def)
  have 5: "process_selected_component cl (JArr records) selected_component additional_text w
               = (Inr None,
                  st_error (Error_processing_component e)
                    (w\<lparr>requests := requests w @
                         [completion_request (join ''\<newline>'' texts @ ''\<newline>\<newline>'' @ additional_text)]\<rparr>))"
    if "aggregate_comments selected_component [] records = Inr (map JStr texts)"
      "texts \<noteq> []"
      "cl (completion_request (join ''\<newline>'' texts @ ''\<newline>\<newline>'' @ additional_text)) = Inl e"
    for records texts e
  proof -
    have j: "py_join (map JStr texts) = Inr (join ''\<newline>'' texts)"
      by (simp add: py_join_def str_items_strings newline_def)
    from that(2) have ne: "map JStr texts \<noteq> []" by simp
    show ?thesis
      using that(3) ne
      by (simp only: process_selected_component_cases process_body_JArr that(1))
         (simp add: j summarize_with_llm_def Let_def newline_def)
  qed
  from 1 2 3 4 5 show ?thesis by blast
qed

theorem malformed_record_handling_witness:
  "aggregate_comments ''ui'' [] [record_ui_slow] = Inr [JStr ''slow'']
   \<and> not_iterable (JInt 5)
   \<and> process_selected_component sample_client (JArr [record_ui_slow, record_numeric_comment])
         ''ui'' ''more'' empty_world
       = (Inr None, \<lparr> ui_errors = [Error_processing_component TypeError], requests = [] \<rparr>)
   \<and> py_iter (JStr ''slow'') = Inr ([] @ JStr ''s'' # [JStr ''l'', JStr ''o'', JStr ''w''])
   \<and> \<not> is_dict (JStr ''s'')
   \<and> process_selected_component sample_client (JArr [record_ui_slow, record_text_comment])
         ''ui'' ''more'' empty_world
       = (Inr None,
          \<lparr> ui_errors = [Error_processing_component (AttributeError ''get'')], requests = [] \<rparr>)
   \<and> list_all is_dict [JObj [(''text'', JStr ''orphan'')]]
   \<and> map_of [(''text'', JStr ''orphan'')] ''comment'' = None
   \<and> aggregate_comments ''ui'' [] [record_ui_slow, record_missing_key] = Inr [JStr ''slow'', JStr '''']
   \<and> failing_client (completion_request (join ''\<newline>'' [''slow''] @ ''\<newline>\<newline>'' @ ''more''))
       = Inl (APIError ''timeout'')
   \<and> process_selected_component failing_client (JArr [record_ui_slow]) ''ui'' ''more'' empty_world
       = (Inr None,
          \<lparr> ui_errors = [Error_processing_component (APIError ''timeout'')],
            requests = [completion_request ''slow\<newline>\<newline>more''] \<rparr>)"
proof -
  have a: "aggregate_comments ''ui'' [] [record_ui_slow] = Inr [JStr ''slow'']"
    by code_simp
  have l: "lower ''ui'' = lower ''ui''" by simp
  have c1: "map_of [(''Component'', JStr ''ui''), (''Comment'', JInt 5)] ''Component'' = Some (JStr ''ui'')"
    by simp
  have g1: "dict_get (JObj [(''Component'', JStr ''ui''), (''Comment'', JInt 5)]) ''Comment'' (JArr [])
              = Inr (JInt 5)"
    by simp
  have n1: "not_iterable (JInt 5)" by (simp add: not_iterable_def)
  from malformed_record_handling [OF a c1 l g1, of sample_client "[]" "''more''" empty_world] n1
  have 1: "process_selected_component sample_client (JArr [record_ui_slow, record_numeric_comment])
         ''ui'' ''more'' empty_world
       = (Inr None, \<lparr> ui_errors = [Error_processing_component TypeError], requests = [] \<rparr>)"
    by (simp add: record_numeric_comment_def st_error_def empty_world_def)
  have c2: "map_of [(''Component'', JStr ''ui''), (''Comment'', JStr ''slow'')] ''Component'' = Some (JStr ''ui'')"
    by simp
  have g2: "dict_get (JObj [(''Component'', JStr ''ui''), (''Comment'', JStr ''slow'')]) ''Comment'' (JArr [])
              = Inr (JStr ''slow'')"
    by simp
  have i2: "py_iter (JStr ''slow'') = Inr ([] @ JStr ''s'' # [JStr ''l'', JStr ''o'', JStr ''w''])"
    by simp
  have d2: "\<not> is_dict (JStr ''s'')" by (simp add: is_dict_def)
  have e2: "list_all is_dict []" by simp
  from malformed_record_handling [OF a c2 l g2, of sample_client "[]" "''more''" empty_world]
  have "\<forall>good nd rest.
          py_iter (JStr ''slow'') = Inr (good @ nd # rest) \<and> list_all is_dict good \<and> \<not> is_dict nd \<longrightarrow>
          process_selected_component sample_client
             (JArr ([record_ui_slow] @ JObj [(''Component'', JStr ''ui''), (''Comment'', JStr ''slow'')] # []))
             ''ui'' ''more'' empty_world
            = (Inr None, st_error (Error_processing_component (AttributeError ''get'')) empty_world)"
    by blast
  with i2 d2 e2
  have "process_selected_component sample_client
             (JArr ([record_ui_slow] @ JObj [(''Component'', JStr ''ui''), (''Comment'', JStr ''slow'')] # []))
             ''ui'' ''more'' empty_world
            = (Inr None, st_error (Error_processing_component (AttributeError ''get'')) empty_world)"
    by blast
  then have 2: "process_selected_component sample_client (JArr [record_ui_slow, record_text_comment])
         ''ui'' ''more'' empty_world
       = (Inr None,
          \<lparr> ui_errors = [Error_processing_component (AttributeError ''get'')], requests = [] \<rparr>)"
    by (simp add: record_text_comment_def st_error_def empty_world_def)
  have c3: "map_of [(''Component'', JStr ''ui''), (''Comment'', JArr [JObj [(''text'', JStr ''orphan'')]])]
              ''Component'' = Some (JStr ''ui'')"
    by simp
  have g3: "dict_get (JObj [(''Component'', JStr ''ui''), (''Comment'', JArr [JObj [(''text'', JStr ''orphan'')]])])
              ''Comment'' (JArr [])
              = Inr (JArr [JObj [(''text'', JStr ''orphan'')]])"
    by simp
  have d3: "list_all is_dict [JObj [(''text'', JStr ''orphan'')]]" by (simp add: is_dict_def)
  have m3: "map_of [(''text'', JStr ''orphan'')] ''comment'' = None" by simp
  from malformed_record_handling [OF a c3 l g3, of sample_client "[]" "''more''" empty_world]
  have "(\<forall>entries.
             py_iter (JArr [JObj [(''text'', JStr ''orphan'')]]) = Inr entries \<and> list_all is_dict entries \<longrightarrow>
             aggregate_comments ''ui'' []
                ([record_ui_slow] @ JObj [(''Component'', JStr ''ui''),
                                          (''Comment'', JArr [JObj [(''text'', JStr ''orphan'')]])] # [])
               = aggregate_comments ''ui'' ([JStr ''slow''] @ map entry_text entries) [])
       \<and> (\<forall>kvs'. map_of kvs' ''comment'' = None \<longrightarrow> entry_text (JObj kvs') = JStr '''')"
    by blast
  with d3 m3
  have "aggregate_comments ''ui'' []
                ([record_ui_slow] @ JObj [(''Component'', JStr ''ui''),
                                          (''Comment'', JArr [JObj [(''text'', JStr ''orphan'')]])] # [])
               = aggregate_comments ''ui'' ([JStr ''slow''] @ map entry_text [JObj [(''text'', JStr ''orphan'')]]) []"
    and "entry_text (JObj [(''text'', JStr ''orphan'')]) = JStr []"
    by simp_all
  then have 3: "aggregate_comments ''ui'' [] [record_ui_slow, record_missing_key] = Inr [JStr ''slow'', JStr '''']"
    by (simp add: record_missing_key_def)
  have f: "failing_client (completion_request (join ''\<newline>'' [''slow''] @ ''\<newline>\<newline>'' @ ''more''))
       = Inl (APIError ''timeout'')"
    by (simp add: failing_client_def)
  have a': "aggregate_comments ''ui'' [] [record_ui_slow] = Inr (map JStr [''slow''])"
    using a by simp
  from malformed_record_handling [OF a c1 l g1, of failing_client "[]" "''more''" empty_world]
  have "\<forall>records texts e.
             aggregate_comments ''ui'' [] records = Inr (map JStr texts)
               \<and> texts \<noteq> []
               \<and> failing_client (completion_request (join ''\<newline>'' texts @ ''\<newline>\<newline>'' @ ''more'')) = Inl e \<longrightarrow>
             process_selected_component failing_client (JArr records) ''ui'' ''more'' empty_world
               = (Inr None,
                  st_error (Error_processing_component e)
                    (empty_world\<lparr>requests := requests empty_world @
                         [completion_request (join ''\<newline>'' texts @ ''\<newline>\<newline>'' @ ''more'')]\<rparr>))"
    by blast
  with a' f
  have "process_selected_component failing_client (JArr [record_ui_slow]) ''ui'' ''more'' empty_world
               = (Inr None,
                  st_error (Error_processing_component (APIError ''timeout''))
                    (empty_world\<lparr>requests := requests empty_world @
                         [completion_request (join ''\<newline>'' [''slow''] @ ''\<newline>\<newline>'' @ ''more'')]\<rparr>))"
    by blast
  then have 4: "process_selected_component failing_client (JArr [record_ui_slow]) ''ui'' ''more'' empty_world
       = (Inr None,
          \<lparr> ui_errors = [Error_processing_component (APIError ''timeout'')],
            requests = [completion_request ''slow\<newline>\<newline>more''] \<rparr>)"
    by (simp add: st_error_def empty_world_def)
  from a n1 1 i2 d2 2 d3 m3 3 f 4 show ?thesis by blast
qed

text \<open>
  C5, as stated, fails: a record whose only comment entry lacks the key \<^verbatim>\<open>comment\<close> is
  summarized, with the payload made of the empty text, and no error message is shown.
\<close>

theorem missing_comment_key_counterexample:
  "wf_json (JArr [record_missing_key])
   \<and> process_selected_component sample_client (JArr [record_missing_key]) ''ui'' ''more'' empty_world
     = (Inr (Some \<lparr>Component = ''ui'', Analysis = ''summary''\<rparr>),
        \<lparr> ui_errors = [], requests = [completion_request ''\<newline>\<newline>more''] \<rparr>)"
proof -
  have w: "wf_json (JArr [record_missing_key])"
    by code_simp
  have a: "aggregate_comments ''ui'' [] [record_missing_key] = Inr [JStr '''']"
    by code_simp
  have "process_selected_component sample_client (JArr [record_missing_key]) ''ui'' ''more'' empty_world
     = (Inr (Some \<lparr>Component = ''ui'', Analysis = ''summary''\<rparr>),
        \<lparr> ui_errors = [], requests = [completion_request ''\<newline>\<newline>more''] \<rparr>)"
    by (simp only: process_selected_component_cases process_body_JArr a)
       (simp add: py_join_def summarize_with_llm_def sample_client_def empty_world_def Let_def
          newline_def)
  with w show ?thesis by simp
qed

section \<open>The texts the aggregation collects\<close>

lemma comments_ok_step:
  assumes "comments_ok (JObj kvs)"
  shows "\<exists>entries. dict_get (JObj kvs) ''Comment'' (JArr []) = Inr (JArr entries)
           \<and> list_all is_dict entries
           \<and> comment_texts (JObj kvs) = map entry_text entries"
proof (cases "map_of kvs ''Comment''")
  case None
  then show ?thesis by (simp add: comment_texts_def)
next
  case (Some cm)
  with assms obtain entries where "cm = JArr entries" "list_all is_dict entries"
    by (cases cm) (simp_all add: comments_ok_def)
  with Some show ?thesis by (simp add: comment_texts_def)
qed

lemma aggregate_comments_closed:
  assumes "list_all has_component records"
    and "list_all comments_ok (filter (\<lambda>r. component_lower r = Inr (lower name)) records)"
  shows "aggregate_comments name acc records = Inr (acc @ matching_comment_texts name records)"
  using assms
proof (induction records arbitrary: acc)
  case Nil
  then show ?case by (simp add: matching_comment_texts_def)
next
  case (Cons r rs)
  from Cons.prems(1) have hc: "has_component r" and hr: "list_all has_component rs"
    by simp_all
  from has_component_lower [OF hc] obtain s where
    sub: "subscript r ''Component'' = Inr (JStr s)" and cl: "component_lower r = Inr (lower s)"
    by blast
  from sub obtain kvs where r: "r = JObj kvs"
    by (cases r) simp_all
  with sub have m: "map_of kvs ''Component'' = Some (JStr s)"
    by (simp split: option.splits)
  show ?case
  proof (cases "lower s = lower name")
    case True
    with cl Cons.prems(2) have ok: "comments_ok r"
      and okr: "list_all comments_ok (filter (\<lambda>r. component_lower r = Inr (lower name)) rs)"
      by simp_all
    from comments_ok_step [OF ok [unfolded r]] obtain entries where
      g: "dict_get (JObj kvs) ''Comment'' (JArr []) = Inr (JArr entries)"
      and d: "list_all is_dict entries"
      and t: "comment_texts (JObj kvs) = map entry_text entries"
      by blast
    have "aggregate_comments name acc (r # rs)
            = aggregate_comments name (acc @ map entry_text entries) rs"
      unfolding r
      by (simp only: aggregate_matching_record [OF m True g])
         (simp add: append_comments_dicts [OF d])
    also have "\<dots> = Inr ((acc @ map entry_text entries) @ matching_comment_texts name rs)"
      using hr okr by (rule Cons.IH)
    finally show ?thesis
      using True cl t r by (simp add: matching_comment_texts_def)
  next
    case False
    with cl Cons.prems(2)
    have okr: "list_all comments_ok (filter (\<lambda>r. component_lower r = Inr (lower name)) rs)"
      by simp
    have "aggregate_comments name acc (r # rs) = aggregate_comments name acc rs"
      using sub False by simp
    also have "\<dots> = Inr (acc @ matching_comment_texts name rs)"
      using hr okr by (rule Cons.IH)
    finally show ?thesis
      using False cl by (simp add: matching_comment_texts_def)
  qed
qed

text \<open>
  C1, as amended. For records that each hold a string under \<^verbatim>\<open>Component\<close>, those of the
  selected component having a \<^verbatim>\<open>Comment\<close> field that is absent or a list of
  dictionaries: when the comment texts of the records of the selected component, in
  record order and in comment order within a record, are \<^verbatim>\<open>line1\<close> and \<^verbatim>\<open>line2\<close>, and the
  extra text is \<^verbatim>\<open>focus on X\<close>, the text handed to \<^verbatim>\<open>summarize_with_llm\<close> is exactly
  \<^verbatim>\<open>line1\nline2\n\nfocus on X\<close>, and the one request sent is built from this payload.
\<close>

theorem payload_of_matching_texts:
  assumes "list_all has_component records"
    and "list_all comments_ok
           (filter (\<lambda>r. component_lower r = Inr (lower selected_component)) records)"
    and "matching_comment_texts selected_component records = [JStr ''line1'', JStr ''line2'']"
  shows "process_body cl (JArr records) selected_component ''focus on X'' w =
           (case summarize_with_llm cl ''line1\<newline>line2\<newline>\<newline>focus on X'' w of
              (Inl e, w') \<Rightarrow> (Inl e, w')
            | (Inr a, w') \<Rightarrow> (Inr (Some \<lparr>Component = selected_component, Analysis = a\<rparr>), w'))
         \<and> requests (snd (process_selected_component cl (JArr records) selected_component
                              ''focus on X'' w)) =
             requests w @ [completion_request ''line1\<newline>line2\<newline>\<newline>focus on X'']"
proof -
  have "aggregate_comments selected_component [] records
          = Inr ([] @ matching_comment_texts selected_component records)"
    using assms(1,2) by (rule aggregate_comments_closed)
  with assms(3)
  have "aggregate_comments selected_component [] records = Inr [JStr ''line1'', JStr ''line2'']"
    by simp
  then show ?thesis by (rule payload_from_accumulated)
qed

theorem payload_of_matching_texts_witness:
  "list_all has_component [record_ui_slow, record_lines]
   \<and> list_all comments_ok
         (filter (\<lambda>r. component_lower r = Inr (lower ''auth'')) [record_ui_slow, record_lines])
   \<and> matching_comment_texts ''auth'' [record_ui_slow, record_lines] = [JStr ''line1'', JStr ''line2'']
   \<and> process_selected_component sample_client (JArr [record_ui_slow, record_lines])
         ''auth'' ''focus on X'' empty_world
       = (Inr (Some \<lparr>Component = ''auth'', Analysis = ''summary''\<rparr>),
          \<lparr> ui_errors = [],
            requests = [completion_request ''line1\<newline>line2\<newline>\<newline>focus on X''] \<rparr>)"
proof -
  have h: "list_all has_component [record_ui_slow, record_lines]"
    by code_simp
  have k: "list_all comments_ok
         (filter (\<lambda>r. component_lower r = Inr (lower ''auth'')) [record_ui_slow, record_lines])"
    by code_simp
  have m: "matching_comment_texts ''auth'' [record_ui_slow, record_lines]
             = [JStr ''line1'', JStr ''line2'']"
    by code_simp
  from payload_of_matching_texts [OF h k m, of sample_client empty_world]
  have "process_selected_component sample_client (JArr [record_ui_slow, record_lines])
         ''auth'' ''focus on X'' empty_world
       = (Inr (Some \<lparr>Component = ''auth'', Analysis = ''summary''\<rparr>),
          \<lparr> ui_errors = [],
            requests = [completion_request ''line1\<newline>line2\<newline>\<newline>focus on X''] \<rparr>)"
    by (simp add: process_selected_component_def summarize_with_llm_def sample_client_def
          empty_world_def Let_def)
  with h k m show ?thesis by blast
qed

text \<open>
  C1, as stated, fails: with a record lacking \<^verbatim>\<open>Component\<close> after the record whose
  comments are \<^verbatim>\<open>line1\<close> and \<^verbatim>\<open>line2\<close>, the matching texts are these two, but the loop
  raises \<^verbatim>\<open>KeyError\<close> and no payload is built.
\<close>

theorem payload_missing_component_counterexample:
  "wf_json (JArr [record_lines, record_no_component])
   \<and> matching_comment_texts ''auth'' [record_lines, record_no_component]
       = [JStr ''line1'', JStr ''line2'']
   \<and> process_selected_component sample_client (JArr [record_lines, record_no_component])
         ''auth'' ''focus on X'' empty_world
       = (Inr None,
          \<lparr> ui_errors = [Error_processing_component (KeyError ''Component'')], requests = [] \<rparr>)"
proof -
  have 0: "wf_json (JArr [record_lines, record_no_component])"
    by code_simp
  have 1: "matching_comment_texts ''auth'' [record_lines, record_no_component]
             = [JStr ''line1'', JStr ''line2'']"
    by code_simp
  have a: "aggregate_comments ''auth'' [] [record_lines, record_no_component]
             = Inl (KeyError ''Component'')"
    by code_simp
  have 2: "process_selected_component sample_client (JArr [record_lines, record_no_component])
         ''auth'' ''focus on X'' empty_world
       = (Inr None,
          \<lparr> ui_errors = [Error_processing_component (KeyError ''Component'')], requests = [] \<rparr>)"
    using process_raises [OF a] by (simp add: st_error_def empty_world_def)
  from 0 1 2 show ?thesis by blast
qed

text \<open>
  C3, as amended. For records that each hold a string under \<^verbatim>\<open>Component\<close>, those of the
  selected component having a \<^verbatim>\<open>Comment\<close> field that is absent or a list of
  dictionaries: when the records of the selected component have no comment text, the
  function returns \<^verbatim>\<open>None\<close> and leaves the world as it was, so no error message is
  shown and no request is sent.
\<close>

theorem no_matching_comments_no_result:
  assumes "list_all has_component records"
    and "list_all comments_ok
           (filter (\<lambda>r. component_lower r = Inr (lower selected_component)) records)"
    and "matching_comment_texts selected_component records = []"
  shows "process_selected_component cl (JArr records) selected_component additional_text w
           = (Inr None, w)"
proof -
  have "aggregate_comments selected_component [] records
          = Inr ([] @ matching_comment_texts selected_component records)"
    using assms(1,2) by (rule aggregate_comments_closed)
  with assms(3) have "aggregate_comments selected_component [] records = Inr []"
    by simp
  then show ?thesis by (rule empty_accumulated_no_result)
qed

theorem no_matching_comments_no_result_witness:
  "list_all has_component [record_ui_slow, record_auth_empty]
   \<and> list_all comments_ok
         (filter (\<lambda>r. component_lower r = Inr (lower ''auth'')) [record_ui_slow, record_auth_empty])
   \<and> matching_comment_texts ''auth'' [record_ui_slow, record_auth_empty] = []
   \<and> process_selected_component sample_client (JArr [record_ui_slow, record_auth_empty])
         ''auth'' ''more'' empty_world
       = (Inr None, empty_world)"
proof -
  have h: "list_all has_component [record_ui_slow, record_auth_empty]"
    by code_simp
  have k: "list_all comments_ok
         (filter (\<lambda>r. component_lower r = Inr (lower ''auth'')) [record_ui_slow, record_auth_empty])"
    by code_simp
  have m: "matching_comment_texts ''auth'' [record_ui_slow, record_auth_empty] = []"
    by code_simp
  show ?thesis
    using h k m no_matching_comments_no_result [OF h k m] by simp
qed

text \<open>
  C3, as stated, fails: for a single record lacking \<^verbatim>\<open>Component\<close> there is no matching
  comment text, yet the loop raises \<^verbatim>\<open>KeyError\<close> and an error message is shown.
\<close>

theorem no_comments_missing_component_counterexample:
  "wf_json (JArr [record_no_component])
   \<and> matching_comment_texts ''ui'' [record_no_component] = []
   \<and> process_selected_component sample_client (JArr [record_no_component])
         ''ui'' ''more'' empty_world
       = (Inr None,
          \<lparr> ui_errors = [Error_processing_component (KeyError ''Component'')], requests = [] \<rparr>)
   \<and> process_selected_component sample_client (JArr [record_no_component])
         ''ui'' ''more'' empty_world \<noteq> (Inr None, empty_world)"
proof -
  have 0: "wf_json (JArr [record_no_component])"
    by code_simp
  have 1: "matching_comment_texts ''ui'' [record_no_component] = []"
    by code_simp
  have a: "aggregate_comments ''ui'' [] [record_no_component] = Inl (KeyError ''Component'')"
    by code_simp
  have 2: "process_selected_component sample_client (JArr [record_no_component])
         ''ui'' ''more'' empty_world
       = (Inr None,
          \<lparr> ui_errors = [Error_processing_component (KeyError ''Component'')], requests = [] \<rparr>)"
    using process_raises [OF a] by (simp add: st_error_def empty_world_def)
  then have 3: "process_selected_component sample_client (JArr [record_no_component])
         ''ui'' ''more'' empty_world \<noteq> (Inr None, empty_world)"
    by (simp add: empty_world_def)
  from 0 1 2 3 show ?thesis by blast
qed

end
